theory Spec2Isabelle
  imports Main "HOL-Library.Word" "HOL-Library.Char_ord" "HOL-Library.List_Lexorder"
    "HOL-Library.Multiset"
begin

unbundle bit_operations_syntax

section \<open>Attestation (src/attestation/Attestation.ts)\<close>

text \<open>
  The class \<open>Attestation\<close> carries the five fields of \<open>IAttestation\<close>. Its constructor
  reads \<open>attester.address\<close>, \<open>requestForAttestation.hash\<close>,
  \<open>requestForAttestation.claim.cType\<close> and \<open>requestForAttestation.delegationId\<close>; the
  interfaces declaring these fields are imported from files that are not part of the
  sources at hand, so the records below hold exactly the fields the constructor reads.
  An optional field (\<open>delegationId?\<close>) is an \<open>option\<close>.
\<close>

record Identity =
  address :: string

record IClaim_of_request =
  cType :: string

record IRequestForAttestation_of_attestation =
  hash :: string
  claim :: IClaim_of_request
  delegationId :: "string option"

record Attestation =
  claimHash :: string
  cTypeHash :: string
  owner :: string
  revoked :: bool
  delegationId :: "string option"

text \<open>
  \<open>constructor(requestForAttestation, attester, revoked = false)\<close>: the third argument
  is optional; the default \<open>false\<close> is taken when it is omitted (\<open>None\<close>).
\<close>

definition Attestation_constructor ::
  "IRequestForAttestation_of_attestation \<Rightarrow> Identity \<Rightarrow> bool option \<Rightarrow> Attestation" where
  "Attestation_constructor requestForAttestation attester revoked_arg =
     (let revoked_v = (case revoked_arg of None \<Rightarrow> False | Some b \<Rightarrow> b) in
      \<lparr> claimHash = hash requestForAttestation,
        cTypeHash = cType (claim requestForAttestation),
        owner = address attester,
        revoked = revoked_v,
        delegationId = IRequestForAttestation_of_attestation.delegationId requestForAttestation \<rparr>)"

text \<open>
  \<open>verify(claimHash = this.claimHash)\<close> awaits \<open>query(claimHash)\<close> of
  \<open>Attestation.chain\<close>, the ledger read, which is typed \<open>Attestation | undefined\<close>: the
  ledger is the parameter \<open>query\<close>, a partial map from claim hashes to attestations.
  The method returns the validity flag; the debug line it logs when the flag is false is
  returned beside it.
\<close>

definition Attestation_verify ::
  "(string \<Rightarrow> Attestation option) \<Rightarrow> Attestation \<Rightarrow> string option \<Rightarrow> bool \<times> string list" where
  "Attestation_verify query this claimHash_arg =
     (let claimHash_v = (case claimHash_arg of None \<Rightarrow> claimHash this | Some h \<Rightarrow> h);
          attestation = query claimHash_v;
          attestationValid =
            (case attestation of
               None \<Rightarrow> False
             | Some a \<Rightarrow> owner a = owner this \<and> \<not> revoked a)
      in (attestationValid,
          if \<not> attestationValid then [''No valid attestation found''] else []))"

section \<open>Delegation decoder (src/delegation/DelegationDecoder.ts)\<close>

datatype Permission = ATTEST | DELEGATE

text \<open>
  Modelled from the spec: the enum \<open>Permission\<close> is declared in \<open>./Delegation\<close>, which is
  not among the sources; the spec gives its values, \<open>ATTEST = 0b01\<close> and
  \<open>DELEGATE = 0b10\<close>. The bitset is "the u32 number used as the bitset", a 32-bit word.
\<close>

fun Permission_value :: "Permission \<Rightarrow> 32 word" where
  "Permission_value ATTEST = 1"
| "Permission_value DELEGATE = 2"

text \<open>
  \<open>permissions\<close> starts empty; each \<open>if (bitset & flag)\<close> pushes its permission when the
  conjunction is non-zero (the truthiness of a number).
\<close>

definition decodePermissions :: "32 word \<Rightarrow> Permission list" where
  "decodePermissions bitset =
     (let permissions = [];
          permissions = (if bitset AND Permission_value ATTEST \<noteq> 0
                         then permissions @ [ATTEST] else permissions);
          permissions = (if bitset AND Permission_value DELEGATE \<noteq> 0
                         then permissions @ [DELEGATE] else permissions)
      in permissions)"

section \<open>JavaScript values\<close>

text \<open>
  The utilities of \<open>ClaimUtils\<close> and \<open>RequestForAttestationUtils\<close> check at run time
  what TypeScript only declares, so their inputs are JavaScript values as they arrive:
  possibly \<open>undefined\<close>, possibly of the wrong type. An object is the list of its own
  enumerable properties in insertion order, which is the order \<open>Object.entries\<close>
  reports and \<open>sortObj\<close> changes. No function below computes with a number, only its
  type and its truthiness are read: numbers are integers.
\<close>

datatype jsval =
    JUndefined
  | JNull
  | JBool bool
  | JNum int
  | JStr string
  | JArr "jsval list"
  | JObj "(string \<times> jsval) list"

fun typeof :: "jsval \<Rightarrow> string" where
  "typeof JUndefined = ''undefined''"
| "typeof JNull = ''object''"
| "typeof (JBool b) = ''boolean''"
| "typeof (JNum n) = ''number''"
| "typeof (JStr s) = ''string''"
| "typeof (JArr xs) = ''object''"
| "typeof (JObj kvs) = ''object''"

text \<open>Truthiness, as \<open>!x\<close> and \<open>if (x)\<close> test it.\<close>

fun truthy :: "jsval \<Rightarrow> bool" where
  "truthy JUndefined = False"
| "truthy JNull = False"
| "truthy (JBool b) = b"
| "truthy (JNum n) = (n \<noteq> 0)"
| "truthy (JStr s) = (s \<noteq> [])"
| "truthy (JArr xs) = True"
| "truthy (JObj kvs) = True"

fun isArray :: "jsval \<Rightarrow> bool" where
  "isArray (JArr xs) = True"
| "isArray v = False"

text \<open>\<open>x === null\<close>.\<close>

fun isNull :: "jsval \<Rightarrow> bool" where
  "isNull JNull = True"
| "isNull v = False"

datatype SDKError =
    ERROR_CLAIM_NOT_PROVIDED
  | ERROR_LEGITIMATIONS_NOT_PROVIDED
  | ERROR_CLAIM_NONCE_MAP_NOT_PROVIDED
  | ERROR_CLAIM_NONCE_MAP_MALFORMED
  | ERROR_DELEGATION_ID_TYPE
  | ERROR_CTYPE_HASH_NOT_PROVIDED
  | ERROR_CLAIM_CONTENTS_MALFORMED
  | ERROR_DECOMPRESSION_ARRAY string
  | TypeError
  | ERROR_OTHER string

text \<open>Decimal digits of an array index, the property names of an array.\<close>

fun showNat :: "nat \<Rightarrow> string" where
  "showNat n =
     (if n < 10 then [char_of (48 + n)]
      else showNat (n div 10) @ [char_of (48 + n mod 10)])"

text \<open>
  \<open>Object.entries(v)\<close>: a \<open>TypeError\<close> on \<open>undefined\<close> and \<open>null\<close>, the own properties
  of an object, the indexed elements of an array and the indexed characters of a string,
  nothing for a number or a boolean.
\<close>

fun Object_entries :: "jsval \<Rightarrow> SDKError + (string \<times> jsval) list" where
  "Object_entries JUndefined = Inl TypeError"
| "Object_entries JNull = Inl TypeError"
| "Object_entries (JBool b) = Inr []"
| "Object_entries (JNum n) = Inr []"
| "Object_entries (JStr s) = Inr (zip (map showNat [0..<length s]) (map (\<lambda>c. JStr [c]) s))"
| "Object_entries (JArr xs) = Inr (zip (map showNat [0..<length xs]) xs)"
| "Object_entries (JObj kvs) = Inr kvs"

text \<open>
  \<open>String(v)\<close>, the text by which \<open>Array.prototype.sort\<close> without a comparator
  orders the elements of an array.
\<close>

definition showInt :: "int \<Rightarrow> string" where
  "showInt i = (if i < 0 then CHR ''-'' # showNat (nat (- i)) else showNat (nat i))"

fun joinWith :: "string \<Rightarrow> string list \<Rightarrow> string" where
  "joinWith sep [] = []"
| "joinWith sep [s] = s"
| "joinWith sep (s # t # ss) = s @ sep @ joinWith sep (t # ss)"

fun ToString :: "jsval \<Rightarrow> string" where
  "ToString JUndefined = ''undefined''"
| "ToString JNull = ''null''"
| "ToString (JBool b) = (if b then ''true'' else ''false'')"
| "ToString (JNum n) = showInt n"
| "ToString (JStr s) = s"
| "ToString (JArr xs) =
     joinWith '','' (map (\<lambda>x. if x = JUndefined \<or> x = JNull then [] else ToString x) xs)"
| "ToString (JObj kvs) = ''[object Object]''"

text \<open>
  \<open>JSON.stringify(v)\<close> of a value other than \<open>undefined\<close>: an \<open>undefined\<close> element of
  an array is written \<open>null\<close>, a property whose value is \<open>undefined\<close> is left out. The
  characters of a string are written as they are.
\<close>

fun JSON_stringify :: "jsval \<Rightarrow> string" where
  "JSON_stringify JUndefined = ''null''"
| "JSON_stringify JNull = ''null''"
| "JSON_stringify (JBool b) = (if b then ''true'' else ''false'')"
| "JSON_stringify (JNum n) = showInt n"
| "JSON_stringify (JStr s) = CHR 0x22 # s @ [CHR 0x22]"
| "JSON_stringify (JArr xs) = CHR ''['' # joinWith '','' (map JSON_stringify xs) @ '']''"
| "JSON_stringify (JObj kvs) =
     CHR ''{'' #
     joinWith '',''
       (map (\<lambda>kv. CHR 0x22 # fst kv @ [CHR 0x22] @ '':'' @ JSON_stringify (snd kv))
            (filter (\<lambda>kv. snd kv \<noteq> JUndefined) kvs)) @ ''}''"

text \<open>\<open>s.toLowerCase()\<close>, on the letters A to Z.\<close>

definition toLowerCase :: "string \<Rightarrow> string" where
  "toLowerCase s =
     map (\<lambda>c. if CHR ''A'' \<le> c \<and> c \<le> CHR ''Z'' then char_of (of_char c + (32 :: nat)) else c)
         s"

text \<open>
  \<open>xs.sort(...)\<close> puts every \<open>undefined\<close> element last without comparing it, and
  orders the others; the sort is stable.
\<close>

definition sortUndefinedLast :: "(jsval \<Rightarrow> string) \<Rightarrow> jsval list \<Rightarrow> jsval list" where
  "sortUndefinedLast key xs =
     sort_key key (filter (\<lambda>x. x \<noteq> JUndefined) xs) @ filter (\<lambda>x. x = JUndefined) xs"

section \<open>Claims (packages/core/src/claim/Claim.utils.ts)\<close>

text \<open>
  \<open>IClaim\<close> and \<open>IRequestForAttestation\<close> are interfaces of fixed shape, hence records.
  The types of their fields are parameters: the utilities below read them as raw
  JavaScript values, the hash-tree builder further down produces them typed.
\<close>

record ('c, 'h, 'o) IClaim =
  contents :: 'c
  cTypeHash :: 'h
  owner :: 'o

record ('cl, 'nm, 'sg, 'hs, 'rh, 'lg, 'di) IRequestForAttestation =
  claim :: 'cl
  claimNonceMap :: 'nm
  claimerSignature :: 'sg
  claimHashes :: 'hs
  rootHash :: 'rh
  legitimations :: 'lg
  delegationId :: 'di

type_synonym RawClaim = "(jsval, jsval, jsval) IClaim"

text \<open>
  A missing (falsy) \<open>claim\<close> is \<open>None\<close>; a claim that is there is the record of what
  its three properties read, \<open>undefined\<close> for a property it does not have. Every other
  field of a request is a raw value.
\<close>

type_synonym RawRequest =
  "(RawClaim option, jsval, jsval, jsval, jsval, jsval, jsval) IRequestForAttestation"

text \<open>
  The functions these utilities import from files that are not among the sources are
  parameters: \<open>validateAddress\<close> and \<open>validateHash\<close> of \<open>DataUtils\<close> (each returns a
  boolean or throws), \<open>sortObj\<close> of \<open>jsonabc\<close>, the static
  \<open>RequestForAttestation.verifyData\<close>, and the codec of \<open>AttestedClaimUtils\<close>.
\<close>

record Deps =
  sortObj :: "jsval \<Rightarrow> jsval"
  validateAddress :: "jsval \<Rightarrow> string \<Rightarrow> SDKError + bool"
  validateHash :: "jsval \<Rightarrow> string \<Rightarrow> SDKError + bool"
  RequestForAttestation_verifyData :: "RawRequest \<Rightarrow> SDKError + bool"
  AttestedClaimUtils_compress :: "jsval \<Rightarrow> SDKError + jsval"
  AttestedClaimUtils_decompress :: "jsval \<Rightarrow> SDKError + jsval"

text \<open>
  The callback of \<open>Object.entries(input.contents).forEach\<close>: the key of an entry is
  always a string, so \<open>typeof key !== 'string'\<close> is false and \<open>!key\<close> is the empty name.
\<close>

definition contentsEntryMalformed :: "string \<times> jsval \<Rightarrow> bool" where
  "contentsEntryMalformed kv =
     (fst kv = [] \<or>
      typeof (snd kv) \<notin> set [''string'', ''number'', ''boolean'', ''object''])"

definition ClaimUtils_errorCheck :: "Deps \<Rightarrow> RawClaim \<Rightarrow> SDKError + unit" where
  "ClaimUtils_errorCheck D input =
     (if \<not> truthy (IClaim.cTypeHash input) then Inl ERROR_CTYPE_HASH_NOT_PROVIDED
      else
       (case (if truthy (IClaim.owner input)
              then validateAddress D (IClaim.owner input) ''Claim owner''
              else Inr True) of
          Inl e \<Rightarrow> Inl e
        | Inr _ \<Rightarrow>
           (case (if IClaim.contents input \<noteq> JUndefined
                  then (case Object_entries (IClaim.contents input) of
                          Inl e \<Rightarrow> Inl e
                        | Inr es \<Rightarrow>
                           (if list_ex contentsEntryMalformed es
                            then Inl ERROR_CLAIM_CONTENTS_MALFORMED else Inr ()))
                  else Inr ()) of
              Inl e \<Rightarrow> Inl e
            | Inr _ \<Rightarrow>
               (case validateHash D (IClaim.cTypeHash input) ''Claim CType'' of
                  Inl e \<Rightarrow> Inl e
                | Inr _ \<Rightarrow> Inr ()))))"

text \<open>\<open>compress(claim)\<close>: the check, then the positional array.\<close>

definition ClaimUtils_compress :: "Deps \<Rightarrow> RawClaim \<Rightarrow> SDKError + jsval" where
  "ClaimUtils_compress D claim_v =
     (case ClaimUtils_errorCheck D claim_v of
        Inl e \<Rightarrow> Inl e
      | Inr _ \<Rightarrow>
          (let sortedContents = sortObj D (IClaim.contents claim_v)
           in Inr (JArr [sortedContents, IClaim.cTypeHash claim_v, IClaim.owner claim_v])))"

text \<open>\<open>decompress(claim)\<close>: the gate on the arity, then the three positions.\<close>

definition ClaimUtils_decompress :: "jsval \<Rightarrow> SDKError + RawClaim" where
  "ClaimUtils_decompress claim_v =
     (case claim_v of
        JArr xs \<Rightarrow>
          if length xs \<noteq> 3 then Inl (ERROR_DECOMPRESSION_ARRAY ''Claim'')
          else Inr \<lparr> contents = xs ! 0, cTypeHash = xs ! 1, owner = xs ! 2 \<rparr>
      | _ \<Rightarrow> Inl (ERROR_DECOMPRESSION_ARRAY ''Claim''))"

section \<open>Requests for attestation (RequestForAttestation.utils.ts)\<close>

text \<open>
  The callback of \<open>Object.entries(input.claimNonceMap).some\<close>, entry by entry from the
  left: \<open>some\<close> stops at the first entry its callback accepts, and a throw of
  \<open>validateHash\<close> leaves the loop.
\<close>

fun claimNonceMap_some :: "Deps \<Rightarrow> (string \<times> jsval) list \<Rightarrow> SDKError + bool" where
  "claimNonceMap_some D [] = Inr False"
| "claimNonceMap_some D ((digest, nonce_v) # rest) =
     (if digest = [] then Inr True
      else
       (case validateHash D (JStr digest) ''statement digest'' of
          Inl e \<Rightarrow> Inl e
        | Inr ok \<Rightarrow>
           (if \<not> ok \<or> typeof nonce_v \<noteq> ''string'' \<or> \<not> truthy nonce_v then Inr True
            else claimNonceMap_some D rest)))"

text \<open>
  \<open>errorCheck(input)\<close>, check by check in the order of the source. The last condition
  is written as the source parses: \<open>!input.delegationId === null\<close> compares the boolean
  \<open>!input.delegationId\<close> with \<open>null\<close>. Its branch throws
  \<open>SDKErrors.ERROR_DELEGATION_ID_TYPE\<close>, the error's factory, without calling it. The
  boolean that \<open>verifyData\<close> returns is dropped.
\<close>

definition errorCheck :: "Deps \<Rightarrow> RawRequest \<Rightarrow> SDKError + unit" where
  "errorCheck D input =
     (case (case IRequestForAttestation.claim input of
              None \<Rightarrow> Inl ERROR_CLAIM_NOT_PROVIDED
            | Some c \<Rightarrow> ClaimUtils_errorCheck D c) of
        Inl e \<Rightarrow> Inl e
      | Inr _ \<Rightarrow>
         (if \<not> truthy (legitimations input) \<and> \<not> isArray (legitimations input)
          then Inl ERROR_LEGITIMATIONS_NOT_PROVIDED
          else if \<not> truthy (claimNonceMap input)
          then Inl ERROR_CLAIM_NONCE_MAP_NOT_PROVIDED
          else
           (case (if typeof (claimNonceMap input) \<noteq> ''object'' then Inr True
                  else (case Object_entries (claimNonceMap input) of
                          Inl e \<Rightarrow> Inl e
                        | Inr es \<Rightarrow> claimNonceMap_some D es)) of
              Inl e \<Rightarrow> Inl e
            | Inr malformed \<Rightarrow>
               (if malformed then Inl ERROR_CLAIM_NONCE_MAP_MALFORMED
                else if typeof (IRequestForAttestation.delegationId input) \<noteq> ''string'' \<and>
                        isNull (JBool (\<not> truthy (IRequestForAttestation.delegationId input)))
                then Inl ERROR_DELEGATION_ID_TYPE
                else
                 (case RequestForAttestation_verifyData D input of
                    Inl e \<Rightarrow> Inl e
                  | Inr _ \<Rightarrow> Inr ())))))"

text \<open>
  \<open>leg.map(f)\<close>: a \<open>TypeError\<close> when \<open>leg\<close> is not an array; otherwise \<open>f\<close> on every
  element from the left, the first throw ending the call.
\<close>

fun mapResult :: "('a \<Rightarrow> SDKError + 'b) \<Rightarrow> 'a list \<Rightarrow> SDKError + 'b list" where
  "mapResult f [] = Inr []"
| "mapResult f (x # xs) =
     (case f x of
        Inl e \<Rightarrow> Inl e
      | Inr y \<Rightarrow> (case mapResult f xs of Inl e \<Rightarrow> Inl e | Inr ys \<Rightarrow> Inr (y # ys)))"

definition compressLegitimation :: "Deps \<Rightarrow> jsval \<Rightarrow> SDKError + jsval list" where
  "compressLegitimation D leg =
     (case leg of
        JArr xs \<Rightarrow> mapResult (AttestedClaimUtils_compress D) xs
      | _ \<Rightarrow> Inl TypeError)"

definition decompressLegitimation :: "Deps \<Rightarrow> jsval \<Rightarrow> SDKError + jsval list" where
  "decompressLegitimation D leg =
     (case leg of
        JArr xs \<Rightarrow> mapResult (AttestedClaimUtils_decompress D) xs
      | _ \<Rightarrow> Inl TypeError)"

text \<open>
  \<open>compress(reqForAtt)\<close>: \<open>errorCheck\<close> first, then the seven positions, evaluated from
  the left. \<open>errorCheck\<close> has thrown already when \<open>claim\<close> is missing.
\<close>

definition compress :: "Deps \<Rightarrow> RawRequest \<Rightarrow> SDKError + jsval" where
  "compress D reqForAtt =
     (case errorCheck D reqForAtt of
        Inl e \<Rightarrow> Inl e
      | Inr _ \<Rightarrow>
         (case (case IRequestForAttestation.claim reqForAtt of
                  None \<Rightarrow> Inl TypeError
                | Some c \<Rightarrow> ClaimUtils_compress D c) of
            Inl e \<Rightarrow> Inl e
          | Inr compressedClaim \<Rightarrow>
             (case compressLegitimation D (legitimations reqForAtt) of
                Inl e \<Rightarrow> Inl e
              | Inr compressedLegitimations \<Rightarrow>
                  Inr (JArr [compressedClaim,
                             claimNonceMap reqForAtt,
                             claimerSignature reqForAtt,
                             claimHashes reqForAtt,
                             rootHash reqForAtt,
                             JArr compressedLegitimations,
                             IRequestForAttestation.delegationId reqForAtt]))))"

text \<open>
  \<open>decompress(reqForAtt)\<close>: the gate \<open>!Array.isArray(reqForAtt) || reqForAtt.length !== 7\<close>,
  then the object literal, whose properties are evaluated in the order written.
\<close>

definition decompress :: "Deps \<Rightarrow> jsval \<Rightarrow> SDKError + RawRequest" where
  "decompress D reqForAtt =
     (case reqForAtt of
        JArr xs \<Rightarrow>
          if length xs \<noteq> 7 then Inl (ERROR_DECOMPRESSION_ARRAY ''Request for Attestation'')
          else
            (case ClaimUtils_decompress (xs ! 0) of
               Inl e \<Rightarrow> Inl e
             | Inr c \<Rightarrow>
                (case decompressLegitimation D (xs ! 5) of
                   Inl e \<Rightarrow> Inl e
                 | Inr legs \<Rightarrow>
                     Inr \<lparr> claim = Some c,
                           claimNonceMap = xs ! 1,
                           claimerSignature = xs ! 2,
                           claimHashes = xs ! 3,
                           rootHash = xs ! 4,
                           legitimations = JArr legs,
                           delegationId = xs ! 6 \<rparr>))
      | _ \<Rightarrow> Inl (ERROR_DECOMPRESSION_ARRAY ''Request for Attestation''))"

text \<open>
  Equality of two JavaScript values as a deep comparison decides it: the same primitive,
  arrays equal position by position, objects with the same property names and equal
  values under each name, in whatever order the properties were inserted.
\<close>

function (sequential) deepEqual :: "jsval \<Rightarrow> jsval \<Rightarrow> bool" where
  "deepEqual (JArr xs) (JArr ys) = list_all2 deepEqual xs ys"
| "deepEqual (JObj kvs) (JObj kvs') =
     (set (map fst kvs) = set (map fst kvs') \<and>
      list_all (\<lambda>k. case map_of kvs k of
                       None \<Rightarrow> False
                     | Some v \<Rightarrow> (case map_of kvs' k of None \<Rightarrow> False | Some w \<Rightarrow> deepEqual v w))
               (map fst kvs))"
| "deepEqual v w = (v = w)"
  by pat_completeness auto
termination
proof (relation "measure (\<lambda>p. size (fst p))")
  show "wf (measure (\<lambda>p. size (fst p)))" by simp
next
  fix xs ys :: "jsval list" and x y
  assume "x \<in> set xs"
  then have "size x < Suc (size_list size xs)"
    by (induction xs) auto
  then show "((x, y), (JArr xs, JArr ys)) \<in> measure (\<lambda>p. size (fst p))" by simp
next
  fix kvs kvs' :: "(string \<times> jsval) list" and k v w
  assume "map_of kvs k = Some v"
  then have "size v < Suc (size_list (size_prod (\<lambda>_. 0) size) kvs)"
    by (induction kvs) (auto split: if_splits)
  then show "((v, w), (JObj kvs, JObj kvs')) \<in> measure (\<lambda>p. size (fst p))" by simp
qed



section \<open>The sorter of \<open>jsonabc\<close>\<close>

text \<open>
  \<open>../util/jsonabc\<close> is the \<open>jsonabc\<close> library, and \<open>ClaimUtils.compress\<close> calls its
  \<open>sortObj\<close> with one argument, so that arrays are sorted as well as keys. The library's
  function, as an instance of the parameter \<open>sortObj\<close>: an array is sorted without a
  comparator, each element is sorted in turn, and the array is sorted again by the JSON
  text of its elements; the keys of an object are sorted without regard to case and each
  value is sorted in turn; any other value is returned as it is.
\<close>

function jsonabc_sortObj :: "jsval \<Rightarrow> jsval" where
  "jsonabc_sortObj (JArr xs) =
     JArr (sortUndefinedLast JSON_stringify
             (map jsonabc_sortObj (sortUndefinedLast ToString xs)))"
| "jsonabc_sortObj (JObj kvs) =
     JObj (map (\<lambda>kv. (fst kv, jsonabc_sortObj (snd kv)))
               (sort_key (\<lambda>kv. toLowerCase (fst kv)) kvs))"
| "jsonabc_sortObj JUndefined = JUndefined"
| "jsonabc_sortObj JNull = JNull"
| "jsonabc_sortObj (JBool b) = JBool b"
| "jsonabc_sortObj (JNum n) = JNum n"
| "jsonabc_sortObj (JStr s) = JStr s"
  by pat_completeness auto
termination
proof (relation "measure size")
  show "wf (measure size)" by simp
next
  fix xs :: "jsval list" and x
  assume "x \<in> set (sortUndefinedLast ToString xs)"
  then have "x \<in> set xs" by (auto simp: sortUndefinedLast_def)
  then have "size x < Suc (size_list size xs)"
    by (induction xs) auto
  then show "(x, JArr xs) \<in> measure size" by simp
next
  fix kvs :: "(string \<times> jsval) list" and kv
  assume "kv \<in> set (sort_key (\<lambda>kv. toLowerCase (fst kv)) kvs)"
  then have "kv \<in> set kvs" by simp
  then have "size (snd kv) < Suc (size_list (size_prod (\<lambda>_. 0) size) kvs)"
    by (induction kvs) auto
  then show "(snd kv, JObj kvs) \<in> measure size" by simp
qed


section \<open>The hash tree of a request for attestation\<close>

text \<open>
  Modelled from the spec: the class \<open>RequestForAttestation\<close> (its builder,
  \<open>removeClaimProperties\<close> and \<open>verifyData\<close>) is not among the sources, only its test
  suite is. The definitions of this section follow sections 3 and 4.1 to 4.4 of the spec.
  The hash, the signature scheme and the serialisation of a value are the external
  collaborators the spec names; they are the parameters \<open>Primitives\<close>. A signature is
  checked against the key that the owner's address names. Every request of this section
  has its owner: erasing the owner (\<open>removeClaimOwner\<close>) is left out.
\<close>

record 'sk Primitives =
  hash :: "string \<Rightarrow> string"
  sign :: "string \<Rightarrow> 'sk \<Rightarrow> string"
  verify :: "string \<Rightarrow> string \<Rightarrow> string \<Rightarrow> bool"
  serialize :: "jsval \<Rightarrow> string"

record 'sk ClaimerIdentity = Identity +
  secretKey :: 'sk

text \<open>\<open>NonceEntry: { hash, nonce }\<close>, one per disclosed unit.\<close>

record NonceEntry =
  hash :: string
  nonce :: string

text \<open>
  A disclosed unit is a claim property or "the claim owner as a distinguished
  pseudo-property".
\<close>

datatype DisclosedUnit = OwnerUnit | PropertyUnit string

type_synonym Claim = "((string \<times> jsval) list, string, string) IClaim"

text \<open>
  An attested claim "pairs a RequestForAttestation with its Attestation". A record cannot
  contain itself, so the type of the requests nested as legitimations is a parameter.
\<close>

record 'r AttestedClaim =
  request :: 'r
  attestation :: Attestation

type_synonym 'r RequestForAttestation =
  "(Claim, (DisclosedUnit \<times> NonceEntry) list, string, string list, string,
    'r AttestedClaim list, string option) IRequestForAttestation"

text \<open>
  "Canonical serialization must be stable under key reordering (sort object keys
  recursively before serializing)"; the digest of a unit is
  \<open>H(nonce || canonicalSerialize(value))\<close>.
\<close>

fun sortKeys :: "jsval \<Rightarrow> jsval" where
  "sortKeys (JObj kvs) = JObj (sort_key fst (map (\<lambda>kv. (fst kv, sortKeys (snd kv))) kvs))"
| "sortKeys (JArr xs) = JArr (map sortKeys xs)"
| "sortKeys v = v"

definition canonicalSerialize :: "'sk Primitives \<Rightarrow> jsval \<Rightarrow> string" where
  "canonicalSerialize P v = serialize P (sortKeys v)"

definition hashNonceValue :: "'sk Primitives \<Rightarrow> string \<Rightarrow> jsval \<Rightarrow> string" where
  "hashNonceValue P nonce_v v = Primitives.hash P (nonce_v @ canonicalSerialize P v)"

text \<open>The units a claim discloses: its owner, then every property of \<open>contents\<close>.\<close>

definition disclosedUnits :: "Claim \<Rightarrow> (DisclosedUnit \<times> jsval) list" where
  "disclosedUnits c =
     (OwnerUnit, JStr (IClaim.owner c)) #
     map (\<lambda>kv. (PropertyUnit (fst kv), snd kv)) (IClaim.contents c)"

text \<open>
  \<open>rootHash == H(sorted(claimHashes) || H(sorted(legitimationRootHashes)) || delegationId)\<close>;
  a \<open>null\<close> delegation contributes nothing.
\<close>

definition rootPreimage ::
  "'sk Primitives \<Rightarrow> string list \<Rightarrow> 'r RequestForAttestation AttestedClaim list \<Rightarrow>
   string option \<Rightarrow> string" where
  "rootPreimage P hashes legs delegation =
     concat (sort hashes) @
     Primitives.hash P (concat (sort (map (\<lambda>l. rootHash (request l)) legs))) @
     (case delegation of None \<Rightarrow> [] | Some d \<Rightarrow> d)"

definition calculateRootHash ::
  "'sk Primitives \<Rightarrow> string list \<Rightarrow> 'r RequestForAttestation AttestedClaim list \<Rightarrow>
   string option \<Rightarrow> string" where
  "calculateRootHash P hashes legs delegation =
     Primitives.hash P (rootPreimage P hashes legs delegation)"

text \<open>
  The hash is "preimage- and collision-resistant": two different messages with the same
  digest are a collision, which the properties below assume away for the messages at hand.
\<close>

definition collision :: "'sk Primitives \<Rightarrow> string \<Rightarrow> string \<Rightarrow> bool" where
  "collision P x y = (x \<noteq> y \<and> Primitives.hash P x = Primitives.hash P y)"

text \<open>
  Section 4.2. The salt source gives the nonce of every unit. For the owner and for every
  property the builder stores \<open>{hash: digest, nonce}\<close> under the unit, collects the
  digests into \<open>claimHashes\<close>, computes the root and signs it with the claimer's key.
\<close>

definition buildRequest ::
  "'sk Primitives \<Rightarrow> Claim \<Rightarrow> 'sk ClaimerIdentity \<Rightarrow> (DisclosedUnit \<Rightarrow> string) \<Rightarrow>
   'r RequestForAttestation AttestedClaim list \<Rightarrow> string option \<Rightarrow>
   'r RequestForAttestation RequestForAttestation" where
  "buildRequest P claim_v claimer salts legs delegation =
     (let entries = map (\<lambda>uv. (fst uv, \<lparr> hash = hashNonceValue P (salts (fst uv)) (snd uv),
                                         nonce = salts (fst uv) \<rparr>))
                        (disclosedUnits claim_v);
          hashes = map (\<lambda>ue. NonceEntry.hash (snd ue)) entries;
          root = calculateRootHash P hashes legs delegation
      in \<lparr> claim = claim_v,
           claimNonceMap = entries,
           claimerSignature = sign P root (secretKey claimer),
           claimHashes = hashes,
           rootHash = root,
           legitimations = legs,
           delegationId = delegation \<rparr>)"

text \<open>
  Section 4.3: \<open>removeClaimProperties(names)\<close> "deletes each named key from contents and
  its corresponding entry from claimNonceMap"; nothing else is touched.
\<close>

definition removeClaimProperties ::
  "string list \<Rightarrow> 'r RequestForAttestation \<Rightarrow> 'r RequestForAttestation" where
  "removeClaimProperties names r =
     r\<lparr> claim := (IRequestForAttestation.claim r)
                    \<lparr> contents := filter (\<lambda>kv. fst kv \<notin> set names)
                                        (IClaim.contents (IRequestForAttestation.claim r)) \<rparr>,
        claimNonceMap := filter (\<lambda>ue. fst ue \<notin> PropertyUnit ` set names) (claimNonceMap r) \<rparr>"

text \<open>
  Section 4.4, steps 1 and 2, for one surviving unit: its nonce entry must be there, the
  recomputed digest must equal the stored one, and the stored one must be among
  \<open>claimHashes\<close>. Each failure is thrown.
\<close>

datatype VerificationError =
    NonceEntryMissing DisclosedUnit
  | HashMismatch DisclosedUnit
  | HashNotCommitted DisclosedUnit

definition verifyUnit ::
  "'sk Primitives \<Rightarrow> (DisclosedUnit \<times> NonceEntry) list \<Rightarrow> string list \<Rightarrow>
   DisclosedUnit \<times> jsval \<Rightarrow> VerificationError + unit" where
  "verifyUnit P nonceMap hashes uv =
     (case map_of nonceMap (fst uv) of
        None \<Rightarrow> Inl (NonceEntryMissing (fst uv))
      | Some e \<Rightarrow>
         (if hashNonceValue P (nonce e) (snd uv) \<noteq> NonceEntry.hash e
          then Inl (HashMismatch (fst uv))
          else if NonceEntry.hash e \<notin> set hashes
          then Inl (HashNotCommitted (fst uv))
          else Inr ()))"

fun verifyUnits ::
  "'sk Primitives \<Rightarrow> (DisclosedUnit \<times> NonceEntry) list \<Rightarrow> string list \<Rightarrow>
   (DisclosedUnit \<times> jsval) list \<Rightarrow> VerificationError + unit" where
  "verifyUnits P nonceMap hashes [] = Inr ()"
| "verifyUnits P nonceMap hashes (uv # uvs) =
     (case verifyUnit P nonceMap hashes uv of
        Inl e \<Rightarrow> Inl e
      | Inr _ \<Rightarrow> verifyUnits P nonceMap hashes uvs)"

text \<open>
  \<open>verifyData\<close>: steps 1 and 2 on every surviving unit, step 3 on the root, step 4 on
  the signature. A root or a signature that does not match is the result \<open>false\<close>.
\<close>

definition verifyData ::
  "'sk Primitives \<Rightarrow> 'r RequestForAttestation RequestForAttestation \<Rightarrow>
   VerificationError + bool" where
  "verifyData P r =
     (case verifyUnits P (claimNonceMap r) (claimHashes r)
             (disclosedUnits (IRequestForAttestation.claim r)) of
        Inl e \<Rightarrow> Inl e
      | Inr _ \<Rightarrow>
         (if calculateRootHash P (claimHashes r) (legitimations r)
               (IRequestForAttestation.delegationId r) \<noteq> rootHash r
          then Inr False
          else Inr (verify P (rootHash r) (claimerSignature r)
                      (IClaim.owner (IRequestForAttestation.claim r)))))"

text \<open>
  The two manipulations of the test suite. \<open>request.claimHashTree.a.nonce = '1234'\<close>
  overwrites the nonce of a unit.
\<close>

definition replaceNonce ::
  "DisclosedUnit \<Rightarrow> string \<Rightarrow> 'r RequestForAttestation \<Rightarrow> 'r RequestForAttestation" where
  "replaceNonce u n r =
     r\<lparr> claimNonceMap :=
          map (\<lambda>ue. if fst ue = u then (fst ue, (snd ue)\<lparr> nonce := n \<rparr>) else ue)
              (claimNonceMap r) \<rparr>"

text \<open>
  \<open>delete request.claim.contents[k]; delete request.claimHashTree[k]\<close> removes the
  property and its whole entry of the hash tree: the nonce entry and the digest it
  commits to.
\<close>

definition deleteFromHashTree ::
  "string \<Rightarrow> 'r RequestForAttestation \<Rightarrow> 'r RequestForAttestation" where
  "deleteFromHashTree k r =
     r\<lparr> claim := (IRequestForAttestation.claim r)
                    \<lparr> contents := filter (\<lambda>kv. fst kv \<noteq> k)
                                        (IClaim.contents (IRequestForAttestation.claim r)) \<rparr>,
        claimNonceMap := filter (\<lambda>ue. fst ue \<noteq> PropertyUnit k) (claimNonceMap r),
        claimHashes :=
          (case map_of (claimNonceMap r) (PropertyUnit k) of
             None \<Rightarrow> claimHashes r
           | Some e \<Rightarrow> remove1 (NonceEntry.hash e) (claimHashes r)) \<rparr>"

section \<open>Concrete collaborators and inputs\<close>

text \<open>
  Dependencies that accept everything: both validators answer \<open>true\<close>, \<open>verifyData\<close>
  answers \<open>true\<close>, and the codec of attested claims leaves a value as it is. The sorter
  is the library's.
\<close>

definition acceptingDeps :: Deps where
  "acceptingDeps =
     \<lparr> sortObj = jsonabc_sortObj,
       validateAddress = (\<lambda>v name. Inr True),
       validateHash = (\<lambda>v name. Inr True),
       RequestForAttestation_verifyData = (\<lambda>r. Inr True),
       AttestedClaimUtils_compress = (\<lambda>v. Inr v),
       AttestedClaimUtils_decompress = (\<lambda>v. Inr v) \<rparr>"

text \<open>A raw request whose \<open>contents\<close> are not in key order, with one legitimation.\<close>

definition exampleRawRequest :: RawRequest where
  "exampleRawRequest =
     \<lparr> claim = Some \<lparr> contents = JObj [(''b'', JStr ''b''), (''a'', JStr ''a'')],
                      cTypeHash = JStr ''0xc7'',
                      owner = JStr ''bob'' \<rparr>,
       claimNonceMap = JObj [(''0xd1'', JStr ''nonce-1''), (''0xd2'', JStr ''nonce-2'')],
       claimerSignature = JStr ''0x5e'',
       claimHashes = JArr [JStr ''0xh1'', JStr ''0xh2''],
       rootHash = JStr ''0x00'',
       legitimations = JArr [JObj [(''request'', JNull), (''attestation'', JNull)]],
       delegationId = JNull \<rparr>"


text \<open>
  Primitives without collisions: the digest of a message is the message behind a mark,
  a signature is the key followed by the message, and the key is the signer's address.
\<close>

definition markingPrimitives :: "string Primitives" where
  "markingPrimitives =
     \<lparr> Primitives.hash = (\<lambda>m. CHR ''#'' # m),
       sign = (\<lambda>m sk. sk @ m),
       verify = (\<lambda>m sg a. sg = a @ m),
       serialize = (\<lambda>v. case v of JStr t \<Rightarrow> t | _ \<Rightarrow> []) \<rparr>"

definition identityBob :: "string ClaimerIdentity" where
  "identityBob = \<lparr> address = ''bob'', secretKey = ''bob'' \<rparr>"

text \<open>The claim of the test suite, \<open>{a: 'a', b: 'b', c: 'c'}\<close>, owned by Bob.\<close>

definition claimABC :: Claim where
  "claimABC =
     \<lparr> contents = [(''a'', JStr ''a''), (''b'', JStr ''b''), (''c'', JStr ''c'')],
       cTypeHash = ''0xc7'',
       owner = ''bob'' \<rparr>"

definition saltsABC :: "DisclosedUnit \<Rightarrow> string" where
  "saltsABC u = (case u of OwnerUnit \<Rightarrow> ''n-owner'' | PropertyUnit k \<Rightarrow> ''n-'' @ k)"

definition requestABC :: "unit RequestForAttestation RequestForAttestation" where
  "requestABC = buildRequest markingPrimitives claimABC identityBob saltsABC [] None"

definition ledgerOf :: "Attestation \<Rightarrow> string \<Rightarrow> Attestation option" where
  "ledgerOf a h = (if h = claimHash a then Some a else None)"

definition attestationBob :: Attestation where
  "attestationBob =
     \<lparr> claimHash = ''0x00'', cTypeHash = ''0xc7'', owner = ''bob'', revoked = False,
       delegationId = None \<rparr>"

section \<open>Attestation: the constructor and \<open>verify\<close>\<close>

text \<open>
  C10. An attestation constructed with the \<open>revoked\<close> argument omitted is not revoked,
  is owned by the attester's address, and takes its claim hash and its delegation id from
  the request.
\<close>

theorem Attestation_constructor_default:
  "Attestation.revoked (Attestation_constructor request_v attester None) = False \<and>
   Attestation.owner (Attestation_constructor request_v attester None) = address attester \<and>
   claimHash (Attestation_constructor request_v attester None) =
     IRequestForAttestation_of_attestation.hash request_v \<and>
   Attestation.delegationId (Attestation_constructor request_v attester None) =
     IRequestForAttestation_of_attestation.delegationId request_v"
  by (simp add: Attestation_constructor_def)

lemma Attestation_constructor_explicit:
  "Attestation.revoked (Attestation_constructor request_v attester (Some b)) = b"
  by (simp add: Attestation_constructor_def)

text \<open>
  C4. \<open>verify\<close> answers \<open>true\<close> exactly when the ledger holds an attestation under the
  claim hash asked for (the argument, or \<open>this.claimHash\<close> when it is omitted) whose
  owner is the owner of \<open>this\<close> and which is not revoked; otherwise (no attestation,
  another owner, revoked) it answers \<open>false\<close>. The function is total: it has no
  failing branch.
\<close>

theorem Attestation_verify_iff:
  "fst (Attestation_verify query this claimHash_arg) =
     (\<exists>a. query (case claimHash_arg of None \<Rightarrow> claimHash this | Some h \<Rightarrow> h) = Some a \<and>
          Attestation.owner a = Attestation.owner this \<and> \<not> Attestation.revoked a)"
  by (auto simp: Attestation_verify_def Let_def split: option.splits)

theorem Attestation_verify_iff_witness:
  "fst (Attestation_verify (ledgerOf attestationBob) attestationBob None) = True \<and>
   fst (Attestation_verify (\<lambda>h. None) attestationBob None) = False \<and>
   fst (Attestation_verify (ledgerOf (attestationBob\<lparr>Attestation.owner := ''carol''\<rparr>))
          attestationBob None) = False \<and>
   fst (Attestation_verify (ledgerOf (attestationBob\<lparr>revoked := True\<rparr>))
          attestationBob (Some ''0x00'')) = False"
  using Attestation_verify_iff [of "ledgerOf attestationBob" attestationBob None]
    Attestation_verify_iff [of "\<lambda>h. None" attestationBob None]
    Attestation_verify_iff [of "ledgerOf (attestationBob\<lparr>Attestation.owner := ''carol''\<rparr>)"
      attestationBob None]
    Attestation_verify_iff [of "ledgerOf (attestationBob\<lparr>revoked := True\<rparr>)"
      attestationBob "Some ''0x00''"]
  by (simp add: ledgerOf_def attestationBob_def)

lemma Attestation_verify_log:
  "snd (Attestation_verify query this claimHash_arg) =
     (if fst (Attestation_verify query this claimHash_arg) then []
      else [''No valid attestation found''])"
  by (simp add: Attestation_verify_def Let_def)

section \<open>The permission bitset\<close>

lemma and_ATTEST_bit: "(bitset AND Permission_value ATTEST \<noteq> 0) = bit bitset 0"
  by (simp add: and_one_eq mod_2_eq_odd bit_0)

lemma and_DELEGATE_bit: "(bitset AND Permission_value DELEGATE \<noteq> 0) = bit bitset 1"
  using and_exp_eq_0_iff_not_bit [of bitset 1] by simp

lemma decodePermissions_bits:
  "decodePermissions bitset =
     (if bit bitset 0 then [ATTEST] else []) @ (if bit bitset 1 then [DELEGATE] else [])"
  using and_ATTEST_bit [of bitset] and_DELEGATE_bit [of bitset]
  by (simp add: decodePermissions_def)

text \<open>
  C5. \<open>decodePermissions\<close> returns the permissions whose flag has a bit in common with
  the bitset, in the order \<open>ATTEST\<close>, \<open>DELEGATE\<close>; on \<open>0b00\<close>, \<open>0b01\<close>, \<open>0b10\<close> and
  \<open>0b11\<close> these are none, \<open>ATTEST\<close>, \<open>DELEGATE\<close>, and both.
\<close>

theorem decodePermissions_flags:
  "decodePermissions bitset =
     filter (\<lambda>p. bitset AND Permission_value p \<noteq> 0) [ATTEST, DELEGATE] \<and>
   decodePermissions 0 = [] \<and>
   decodePermissions 1 = [ATTEST] \<and>
   decodePermissions 2 = [DELEGATE] \<and>
   decodePermissions 3 = [ATTEST, DELEGATE]"
  by (simp add: decodePermissions_def)

section \<open>Deep equality and key sorting\<close>






section \<open>The positional encoding of a request\<close>










text \<open>
  The example request: \<open>compress\<close> puts the keys of its \<open>contents\<close> in order, and
  \<open>decompress\<close> returns the request with the keys in that order.
\<close>

lemma compress_exampleRawRequest:
  "compress acceptingDeps exampleRawRequest =
     Inr (JArr [JArr [JObj [(''a'', JStr ''a''), (''b'', JStr ''b'')], JStr ''0xc7'',
                      JStr ''bob''],
                JObj [(''0xd1'', JStr ''nonce-1''), (''0xd2'', JStr ''nonce-2'')],
                JStr ''0x5e'',
                JArr [JStr ''0xh1'', JStr ''0xh2''],
                JStr ''0x00'',
                JArr [JObj [(''request'', JNull), (''attestation'', JNull)]],
                JNull])"
  by code_simp

lemma decompress_exampleRawRequest:
  "decompress acceptingDeps
     (JArr [JArr [JObj [(''a'', JStr ''a''), (''b'', JStr ''b'')], JStr ''0xc7'',
                  JStr ''bob''],
            JObj [(''0xd1'', JStr ''nonce-1''), (''0xd2'', JStr ''nonce-2'')],
            JStr ''0x5e'',
            JArr [JStr ''0xh1'', JStr ''0xh2''],
            JStr ''0x00'',
            JArr [JObj [(''request'', JNull), (''attestation'', JNull)]],
            JNull]) =
   Inr (exampleRawRequest
         \<lparr> claim := Some \<lparr> contents = JObj [(''a'', JStr ''a''), (''b'', JStr ''b'')],
                            cTypeHash = JStr ''0xc7'',
                            owner = JStr ''bob'' \<rparr> \<rparr>)"
  by (simp add: decompress_def ClaimUtils_decompress_def decompressLegitimation_def
      acceptingDeps_def exampleRawRequest_def)

lemma deepEqual_example:
  "deepEqual (JObj [(''a'', JStr ''a''), (''b'', JStr ''b'')])
             (JObj [(''b'', JStr ''b''), (''a'', JStr ''a'')]) \<and>
   \<not> deepEqual (JObj [(''a'', JStr ''a''), (''b'', JStr ''b'')])
               (JObj [(''b'', JStr ''c''), (''a'', JStr ''a'')])"
  by code_simp

section \<open>The gate of \<open>decompress\<close>\<close>




section \<open>The checks of \<open>errorCheck\<close> on \<open>legitimations\<close> and \<open>delegationId\<close>\<close>

text \<open>
  The guard on \<open>legitimations\<close> is \<open>!x && !Array.isArray(x)\<close>. No falsy value is an
  array, so the guard is \<open>!x\<close>: it is taken on a missing or otherwise falsy field, and
  on no other.
\<close>

lemma legitimations_guard:
  "(\<not> truthy x \<and> \<not> isArray x) = (\<not> truthy x)"
  by (cases x) simp_all

lemma errorCheck_legitimations_falsy:
  assumes "IRequestForAttestation.claim input = Some c"
      and "ClaimUtils_errorCheck D c = Inr ()"
      and "\<not> truthy (legitimations input)"
  shows "errorCheck D input = Inl ERROR_LEGITIMATIONS_NOT_PROVIDED"
  using assms legitimations_guard [of "legitimations input"] by (simp add: errorCheck_def)

lemma errorCheck_legitimations_truthy:
  assumes "truthy (legitimations input)"
      and "\<forall>v n. validateAddress D v n \<noteq> Inl ERROR_LEGITIMATIONS_NOT_PROVIDED"
      and "\<forall>v n. validateHash D v n \<noteq> Inl ERROR_LEGITIMATIONS_NOT_PROVIDED"
      and "\<forall>r. RequestForAttestation_verifyData D r \<noteq> Inl ERROR_LEGITIMATIONS_NOT_PROVIDED"
  shows "errorCheck D input \<noteq> Inl ERROR_LEGITIMATIONS_NOT_PROVIDED"
proof -
  have o: "Object_entries v \<noteq> Inl ERROR_LEGITIMATIONS_NOT_PROVIDED" for v
    by (cases v) simp_all
  have c: "ClaimUtils_errorCheck D c \<noteq> Inl ERROR_LEGITIMATIONS_NOT_PROVIDED" for c
    using assms(2,3) o [of "IClaim.contents c"]
    by (auto simp: ClaimUtils_errorCheck_def split: sum.splits if_splits)
  have m: "claimNonceMap_some D es \<noteq> Inl ERROR_LEGITIMATIONS_NOT_PROVIDED" for es
    using assms(3) by (induction es) (auto split: sum.splits if_splits)
  show ?thesis
    using assms(1,4) c m o
    by (auto simp: errorCheck_def split: option.splits sum.splits if_splits)
qed

text \<open>
  C7 at a request whose \<open>legitimations\<close> is the string \<open>'abc'\<close>: \<open>errorCheck\<close> raises
  nothing, and \<open>compress\<close> fails with the \<open>TypeError\<close> of \<open>'abc'.map\<close>, not with
  \<open>ERROR_LEGITIMATIONS_NOT_PROVIDED\<close>.
\<close>

theorem errorCheck_legitimations_not_array:
  "\<not> isArray (JStr ''abc'') \<and>
   errorCheck acceptingDeps (exampleRawRequest\<lparr>legitimations := JStr ''abc''\<rparr>) = Inr () \<and>
   compress acceptingDeps (exampleRawRequest\<lparr>legitimations := JStr ''abc''\<rparr>) = Inl TypeError"
  by (simp add: compress_def compressLegitimation_def ClaimUtils_compress_def errorCheck_def
      ClaimUtils_errorCheck_def acceptingDeps_def exampleRawRequest_def
      contentsEntryMalformed_def)

text \<open>
  The guard on \<open>delegationId\<close> is \<open>typeof x !== 'string' && !x === null\<close>, and \<open>!x\<close> is a
  boolean: the guard is never taken.
\<close>

lemma delegationId_guard:
  "(typeof x \<noteq> ''string'' \<and> isNull (JBool (\<not> truthy x))) = False"
  by simp

lemma errorCheck_never_delegationId_error:
  assumes "\<forall>v n. validateAddress D v n \<noteq> Inl ERROR_DELEGATION_ID_TYPE"
      and "\<forall>v n. validateHash D v n \<noteq> Inl ERROR_DELEGATION_ID_TYPE"
      and "\<forall>r. RequestForAttestation_verifyData D r \<noteq> Inl ERROR_DELEGATION_ID_TYPE"
  shows "errorCheck D input \<noteq> Inl ERROR_DELEGATION_ID_TYPE"
proof -
  have o: "Object_entries v \<noteq> Inl ERROR_DELEGATION_ID_TYPE" for v
    by (cases v) simp_all
  have c: "ClaimUtils_errorCheck D c \<noteq> Inl ERROR_DELEGATION_ID_TYPE" for c
    using assms(1,2) o [of "IClaim.contents c"]
    by (auto simp: ClaimUtils_errorCheck_def split: sum.splits if_splits)
  have m: "claimNonceMap_some D es \<noteq> Inl ERROR_DELEGATION_ID_TYPE" for es
    using assms(2) by (induction es) (auto split: sum.splits if_splits)
  show ?thesis
    using assms(3) c m o
    by (auto simp: errorCheck_def split: option.splits sum.splits if_splits)
qed

text \<open>
  C8 at a request whose \<open>delegationId\<close> is the number 42, neither a string nor \<open>null\<close>:
  \<open>errorCheck\<close> raises nothing, and \<open>compress\<close> encodes the number.
\<close>

theorem errorCheck_delegationId_number:
  "typeof (JNum 42) \<noteq> ''string'' \<and> \<not> isNull (JNum 42) \<and>
   errorCheck acceptingDeps
     (exampleRawRequest\<lparr>IRequestForAttestation.delegationId := JNum 42\<rparr>) = Inr () \<and>
   (\<exists>xs. compress acceptingDeps
            (exampleRawRequest\<lparr>IRequestForAttestation.delegationId := JNum 42\<rparr>) =
            Inr (JArr xs) \<and> xs ! 6 = JNum 42)"
  by (simp add: compress_def compressLegitimation_def ClaimUtils_compress_def errorCheck_def
      ClaimUtils_errorCheck_def acceptingDeps_def exampleRawRequest_def
      contentsEntryMalformed_def)

section \<open>The hash tree: building, verifying, redacting, tampering\<close>

lemma verifyUnits_Inr_iff:
  "verifyUnits P nm hs uvs = Inr () \<longleftrightarrow> (\<forall>uv\<in>set uvs. verifyUnit P nm hs uv = Inr ())"
  by (induction uvs) (auto split: sum.splits)

lemma verifyUnits_first_failure:
  assumes "uv \<in> set uvs" and "verifyUnit P nm hs uv = Inl e"
      and "\<forall>w\<in>set uvs. w \<noteq> uv \<longrightarrow> verifyUnit P nm hs w = Inr ()"
  shows "verifyUnits P nm hs uvs = Inl e"
  using assms
proof (induction uvs)
  case Nil
  then show ?case by simp
next
  case (Cons a uvs)
  show ?case
  proof (cases "a = uv")
    case True
    then show ?thesis using Cons.prems by simp
  next
    case False
    then have "verifyUnit P nm hs a = Inr ()" using Cons.prems by simp
    moreover have "verifyUnits P nm hs uvs = Inl e"
      using Cons False by auto
    ultimately show ?thesis by simp
  qed
qed

lemma distinct_disclosedUnits:
  "distinct (map fst (IClaim.contents c)) \<Longrightarrow> distinct (map fst (disclosedUnits c))"
  by (auto simp: disclosedUnits_def distinct_map comp_def inj_on_def)

lemma buildRequest_fields [simp]:
  "IRequestForAttestation.claim (buildRequest P c claimer salts legs d) = c"
  "claimNonceMap (buildRequest P c claimer salts legs d) =
     map (\<lambda>uv. (fst uv, \<lparr> hash = hashNonceValue P (salts (fst uv)) (snd uv), nonce = salts (fst uv) \<rparr>))
         (disclosedUnits c)"
  "claimHashes (buildRequest P c claimer salts legs d) =
     map (\<lambda>uv. hashNonceValue P (salts (fst uv)) (snd uv)) (disclosedUnits c)"
  "rootHash (buildRequest P c claimer salts legs d) =
     calculateRootHash P (map (\<lambda>uv. hashNonceValue P (salts (fst uv)) (snd uv)) (disclosedUnits c)) legs d"
  "claimerSignature (buildRequest P c claimer salts legs d) =
     sign P (calculateRootHash P (map (\<lambda>uv. hashNonceValue P (salts (fst uv)) (snd uv)) (disclosedUnits c)) legs d)
       (secretKey claimer)"
  "legitimations (buildRequest P c claimer salts legs d) = legs"
  "IRequestForAttestation.delegationId (buildRequest P c claimer salts legs d) = d"
  by (simp_all add: buildRequest_def Let_def comp_def)

lemma map_of_entries:
  assumes "distinct (map fst uvs)" and "(u, v) \<in> set uvs"
  shows "map_of (map (\<lambda>uv. (fst uv, g uv)) uvs) u = Some (g (u, v))"
  using assms
  by (induction uvs) (auto simp: rev_image_eqI)

lemma verifyUnit_built:
  assumes "distinct (map fst uvs)" and "uv \<in> set uvs"
  shows "verifyUnit P
           (map (\<lambda>uv. (fst uv, \<lparr> hash = hashNonceValue P (salts (fst uv)) (snd uv), nonce = salts (fst uv) \<rparr>)) uvs)
           (map (\<lambda>uv. hashNonceValue P (salts (fst uv)) (snd uv)) uvs) uv = Inr ()"
proof -
  obtain u v where uv: "uv = (u, v)" by (cases uv)
  have "map_of (map (\<lambda>uv. (fst uv, \<lparr> hash = hashNonceValue P (salts (fst uv)) (snd uv), nonce = salts (fst uv) \<rparr>)) uvs) u
        = Some \<lparr> hash = hashNonceValue P (salts u) v, nonce = salts u \<rparr>"
    using map_of_entries [OF assms(1), of u v
        "\<lambda>uv. \<lparr> hash = hashNonceValue P (salts (fst uv)) (snd uv), nonce = salts (fst uv) \<rparr>"]
      assms(2) uv by simp
  moreover have "hashNonceValue P (salts u) v \<in> set (map (\<lambda>uv. hashNonceValue P (salts (fst uv)) (snd uv)) uvs)"
    using assms(2) uv by force
  ultimately show ?thesis
    by (simp add: verifyUnit_def uv)
qed

lemma verifyData_buildRequest:
  assumes keys: "distinct (map fst (IClaim.contents c))"
      and own: "IClaim.owner c = address claimer"
      and sig: "\<forall>m. verify P m (sign P m (secretKey claimer)) (address claimer)"
  shows "verifyData P (buildRequest P c claimer salts legs d) = Inr True"
proof -
  have "verifyUnits P (claimNonceMap (buildRequest P c claimer salts legs d))
          (claimHashes (buildRequest P c claimer salts legs d)) (disclosedUnits c) = Inr ()"
    by (simp add: verifyUnits_Inr_iff verifyUnit_built [OF distinct_disclosedUnits [OF keys]])
  then show ?thesis
    using own sig by (simp add: verifyData_def)
qed

lemma map_of_filter_fst:
  "map_of (filter (\<lambda>ue. Q (fst ue)) xs) u = (if Q u then map_of xs u else None)"
  by (induction xs) auto

lemma removeClaimProperties_fields [simp]:
  "IClaim.contents (IRequestForAttestation.claim (removeClaimProperties names r)) =
     filter (\<lambda>kv. fst kv \<notin> set names) (IClaim.contents (IRequestForAttestation.claim r))"
  "IClaim.owner (IRequestForAttestation.claim (removeClaimProperties names r)) =
     IClaim.owner (IRequestForAttestation.claim r)"
  "IClaim.cTypeHash (IRequestForAttestation.claim (removeClaimProperties names r)) =
     IClaim.cTypeHash (IRequestForAttestation.claim r)"
  "claimNonceMap (removeClaimProperties names r) =
     filter (\<lambda>ue. fst ue \<notin> PropertyUnit ` set names) (claimNonceMap r)"
  "claimHashes (removeClaimProperties names r) = claimHashes r"
  "rootHash (removeClaimProperties names r) = rootHash r"
  "claimerSignature (removeClaimProperties names r) = claimerSignature r"
  "legitimations (removeClaimProperties names r) = legitimations r"
  "IRequestForAttestation.delegationId (removeClaimProperties names r) = IRequestForAttestation.delegationId r"
  by (simp_all add: removeClaimProperties_def)

lemma disclosedUnits_removed:
  "uv \<in> set (disclosedUnits (IRequestForAttestation.claim (removeClaimProperties names r))) \<Longrightarrow>
   uv \<in> set (disclosedUnits (IRequestForAttestation.claim r)) \<and> fst uv \<notin> PropertyUnit ` set names"
  by (auto simp: disclosedUnits_def)

lemma verifyUnit_removed:
  assumes "fst uv \<notin> PropertyUnit ` set names"
  shows "verifyUnit P (filter (\<lambda>ue. fst ue \<notin> PropertyUnit ` set names) nm) hs uv = verifyUnit P nm hs uv"
  using assms map_of_filter_fst [of "\<lambda>u. u \<notin> PropertyUnit ` set names" nm "fst uv"]
  by (simp add: verifyUnit_def)

lemma verifyData_removeClaimProperties:
  assumes "verifyData P r = Inr True"
  shows "verifyData P (removeClaimProperties names r) = Inr True"
proof -
  from assms have u: "verifyUnits P (claimNonceMap r) (claimHashes r)
                        (disclosedUnits (IRequestForAttestation.claim r)) = Inr ()"
    by (auto simp: verifyData_def split: sum.splits)
  have "verifyUnits P (claimNonceMap (removeClaimProperties names r)) (claimHashes r)
          (disclosedUnits (IRequestForAttestation.claim (removeClaimProperties names r))) = Inr ()"
    unfolding verifyUnits_Inr_iff
  proof
    fix uv
    assume "uv \<in> set (disclosedUnits (IRequestForAttestation.claim (removeClaimProperties names r)))"
    then have a: "uv \<in> set (disclosedUnits (IRequestForAttestation.claim r))"
      and b: "fst uv \<notin> PropertyUnit ` set names"
      using disclosedUnits_removed by blast+
    from u a have "verifyUnit P (claimNonceMap r) (claimHashes r) uv = Inr ()"
      by (simp add: verifyUnits_Inr_iff)
    then show "verifyUnit P (claimNonceMap (removeClaimProperties names r)) (claimHashes r) uv = Inr ()"
      by (simp add: verifyUnit_removed [OF b])
  qed
  then show ?thesis
    using assms by (auto simp: verifyData_def split: sum.splits if_splits)
qed

lemma replaceNonce_fields [simp]:
  "IRequestForAttestation.claim (replaceNonce u n r) = IRequestForAttestation.claim r"
  "claimNonceMap (replaceNonce u n r) =
     map (\<lambda>ue. if fst ue = u then (fst ue, (snd ue)\<lparr> nonce := n \<rparr>) else ue) (claimNonceMap r)"
  "claimHashes (replaceNonce u n r) = claimHashes r"
  "rootHash (replaceNonce u n r) = rootHash r"
  by (simp_all add: replaceNonce_def)

lemma map_of_replaced:
  "map_of (map (\<lambda>ue. if fst ue = u then (fst ue, f (snd ue)) else ue) xs) w =
     (if w = u then map_option f (map_of xs w) else map_of xs w)"
  by (induction xs) auto

lemma hashNonceValue_no_collision:
  assumes "\<not> collision P (n @ canonicalSerialize P v) (n' @ canonicalSerialize P v)"
      and "n \<noteq> n'"
  shows "hashNonceValue P n v \<noteq> hashNonceValue P n' v"
  using assms by (simp add: hashNonceValue_def collision_def)

lemma inj_no_collision: "inj (Primitives.hash P) \<Longrightarrow> \<not> collision P x y"
  by (auto simp: collision_def dest: injD)

lemma verifyData_replaceNonce:
  assumes keys: "distinct (map fst (IClaim.contents c))"
      and k: "(k, v) \<in> set (IClaim.contents c)"
      and n: "n \<noteq> salts (PropertyUnit k)"
      and nc: "\<not> collision P (n @ canonicalSerialize P v)
                  (salts (PropertyUnit k) @ canonicalSerialize P v)"
  shows "verifyData P (replaceNonce (PropertyUnit k) n (buildRequest P c claimer salts legs d)) =
           Inl (HashMismatch (PropertyUnit k))"
proof -
  let ?r = "buildRequest P c claimer salts legs d"
  let ?nm = "claimNonceMap (replaceNonce (PropertyUnit k) n ?r)"
  let ?uv = "(PropertyUnit k, v)"
  have d: "distinct (map fst (disclosedUnits c))"
    by (rule distinct_disclosedUnits [OF keys])
  have mem: "?uv \<in> set (disclosedUnits c)"
    using k by (force simp: disclosedUnits_def)
  have orig: "map_of (claimNonceMap ?r) u = Some \<lparr> hash = hashNonceValue P (salts u) w, nonce = salts u \<rparr>"
    if "(u, w) \<in> set (disclosedUnits c)" for u w
    using map_of_entries [OF d that,
        of "\<lambda>uv. \<lparr> hash = hashNonceValue P (salts (fst uv)) (snd uv), nonce = salts (fst uv) \<rparr>"]
    by simp
  have bad: "verifyUnit P ?nm (claimHashes ?r) ?uv = Inl (HashMismatch (PropertyUnit k))"
    using orig [OF mem] hashNonceValue_no_collision [OF nc n]
    by (simp add: verifyUnit_def map_of_replaced del: map_map)
  have others: "\<forall>w\<in>set (disclosedUnits c). w \<noteq> ?uv \<longrightarrow> verifyUnit P ?nm (claimHashes ?r) w = Inr ()"
  proof (intro ballI impI)
    fix w assume w: "w \<in> set (disclosedUnits c)" and ne: "w \<noteq> ?uv"
    have "fst w \<noteq> PropertyUnit k"
    proof
      assume "fst w = PropertyUnit k"
      then have "w = ?uv" using d w mem
        by (metis eq_key_imp_eq_value prod.collapse)
      with ne show False by simp
    qed
    then have "verifyUnit P ?nm (claimHashes ?r) w = verifyUnit P (claimNonceMap ?r) (claimHashes ?r) w"
      by (simp add: verifyUnit_def map_of_replaced del: map_map)
    also have "\<dots> = Inr ()"
      using verifyUnit_built [OF d w] by simp
    finally show "verifyUnit P ?nm (claimHashes ?r) w = Inr ()" .
  qed
  have "verifyUnits P ?nm (claimHashes ?r) (disclosedUnits c) = Inl (HashMismatch (PropertyUnit k))"
    by (rule verifyUnits_first_failure [OF mem bad others])
  then show ?thesis
    by (simp add: verifyData_def)
qed

lemma deleteFromHashTree_fields [simp]:
  "IClaim.contents (IRequestForAttestation.claim (deleteFromHashTree k r)) =
     filter (\<lambda>kv. fst kv \<noteq> k) (IClaim.contents (IRequestForAttestation.claim r))"
  "IClaim.owner (IRequestForAttestation.claim (deleteFromHashTree k r)) =
     IClaim.owner (IRequestForAttestation.claim r)"
  "claimNonceMap (deleteFromHashTree k r) = filter (\<lambda>ue. fst ue \<noteq> PropertyUnit k) (claimNonceMap r)"
  "claimHashes (deleteFromHashTree k r) =
     (case map_of (claimNonceMap r) (PropertyUnit k) of
        None \<Rightarrow> claimHashes r
      | Some e \<Rightarrow> remove1 (NonceEntry.hash e) (claimHashes r))"
  "rootHash (deleteFromHashTree k r) = rootHash r"
  "claimerSignature (deleteFromHashTree k r) = claimerSignature r"
  "legitimations (deleteFromHashTree k r) = legitimations r"
  "IRequestForAttestation.delegationId (deleteFromHashTree k r) = IRequestForAttestation.delegationId r"
  by (simp_all add: deleteFromHashTree_def)

lemma remove1_map_member:
  "x \<in> set xs \<Longrightarrow> y \<in> set xs \<Longrightarrow> x \<noteq> y \<Longrightarrow> f x \<in> set (remove1 (f y) (map f xs))"
proof (induction xs)
  case Nil
  then show ?case by simp
next
  case (Cons a xs)
  show ?case
  proof (cases "f a = f y")
    case True
    then show ?thesis using Cons.prems by (cases "x = a") auto
  next
    case False
    then show ?thesis using Cons by auto
  qed
qed

lemma length_concat_sort:
  "length (concat (sort (xs :: string list))) = sum_list (map length xs)"
proof -
  have "sum_list (map length (sort xs)) = sum_mset (image_mset length (mset (sort xs)))"
    by (metis mset_map sum_mset_sum_list)
  also have "\<dots> = sum_mset (image_mset length (mset xs))" by simp
  also have "\<dots> = sum_list (map length xs)"
    by (metis mset_map sum_mset_sum_list)
  finally show ?thesis by (simp add: length_concat)
qed

lemma concat_sort_remove1:
  assumes "h \<in> set hs" and "h \<noteq> []"
  shows "concat (sort (remove1 h hs)) @ t \<noteq> concat (sort hs) @ (t :: string)"
proof -
  have "sum_list (map length hs) = length h + sum_list (map length (remove1 h hs))"
    using assms(1) by (rule sum_list_map_remove1)
  then have "length (concat (sort (remove1 h hs))) < length (concat (sort hs))"
    using assms(2) by (simp add: length_concat_sort)
  then show ?thesis by auto
qed

lemma rootPreimage_remove1:
  assumes "h \<in> set hs" and "h \<noteq> []"
  shows "rootPreimage P (remove1 h hs) legs d \<noteq> rootPreimage P hs legs d"
  unfolding rootPreimage_def by (rule concat_sort_remove1 [OF assms])

lemma calculateRootHash_remove1:
  assumes "\<not> collision P (rootPreimage P (remove1 h hs) legs d) (rootPreimage P hs legs d)"
      and "h \<in> set hs" and "h \<noteq> []"
  shows "calculateRootHash P (remove1 h hs) legs d \<noteq> calculateRootHash P hs legs d"
  using assms(1) rootPreimage_remove1 [OF assms(2,3), of P legs d]
  by (simp add: calculateRootHash_def collision_def)

lemma verifyData_deleteFromHashTree:
  assumes keys: "distinct (map fst (IClaim.contents c))"
      and k: "(k, v) \<in> set (IClaim.contents c)"
      and ne: "hashNonceValue P (salts (PropertyUnit k)) v \<noteq> []"
      and nc: "\<not> collision P
                  (rootPreimage P
                     (claimHashes (deleteFromHashTree k (buildRequest P c claimer salts legs d)))
                     legs d)
                  (rootPreimage P (claimHashes (buildRequest P c claimer salts legs d)) legs d)"
  shows "verifyData P (deleteFromHashTree k (buildRequest P c claimer salts legs d)) = Inr False"
proof -
  let ?r = "buildRequest P c claimer salts legs d"
  let ?g = "\<lambda>uv. hashNonceValue P (salts (fst uv)) (snd uv)"
  let ?uk = "(PropertyUnit k, v)"
  have d: "distinct (map fst (disclosedUnits c))"
    by (rule distinct_disclosedUnits [OF keys])
  have mem: "?uk \<in> set (disclosedUnits c)"
    using k by (force simp: disclosedUnits_def)
  have entry: "map_of (claimNonceMap ?r) (PropertyUnit k) =
                 Some \<lparr> hash = ?g ?uk, nonce = salts (PropertyUnit k) \<rparr>"
    using map_of_entries [OF d mem,
        of "\<lambda>uv. \<lparr> hash = hashNonceValue P (salts (fst uv)) (snd uv), nonce = salts (fst uv) \<rparr>"]
    by simp
  have hs: "claimHashes (deleteFromHashTree k ?r) = remove1 (?g ?uk) (map ?g (disclosedUnits c))"
    using entry by simp
  have units: "verifyUnits P (claimNonceMap (deleteFromHashTree k ?r)) (claimHashes (deleteFromHashTree k ?r))
                 (disclosedUnits (IRequestForAttestation.claim (deleteFromHashTree k ?r))) = Inr ()"
    unfolding verifyUnits_Inr_iff
  proof
    fix w
    assume "w \<in> set (disclosedUnits (IRequestForAttestation.claim (deleteFromHashTree k ?r)))"
    then have w: "w \<in> set (disclosedUnits c)" and wk: "fst w \<noteq> PropertyUnit k"
      by (auto simp: disclosedUnits_def)
    from wk have wne: "w \<noteq> ?uk" by auto
    have e: "map_of (claimNonceMap ?r) (fst w) = Some \<lparr> hash = ?g w, nonce = salts (fst w) \<rparr>"
      using map_of_entries [OF d, of "fst w" "snd w"
          "\<lambda>uv. \<lparr> hash = hashNonceValue P (salts (fst uv)) (snd uv), nonce = salts (fst uv) \<rparr>"] w
      by simp
    have e': "map_of (claimNonceMap (deleteFromHashTree k ?r)) (fst w) =
                Some \<lparr> hash = ?g w, nonce = salts (fst w) \<rparr>"
      using e wk map_of_filter_fst [of "\<lambda>u. u \<noteq> PropertyUnit k" "claimNonceMap ?r" "fst w"]
      by (simp del: buildRequest_fields)
    have "?g w \<in> set (remove1 (?g ?uk) (map ?g (disclosedUnits c)))"
      by (rule remove1_map_member [OF w mem wne])
    then show "verifyUnit P (claimNonceMap (deleteFromHashTree k ?r))
                 (claimHashes (deleteFromHashTree k ?r)) w = Inr ()"
      unfolding verifyUnit_def e' hs by simp
  qed
  have a: "?g ?uk \<in> set (map ?g (disclosedUnits c))" using mem by force
  have b: "?g ?uk \<noteq> []" using ne by simp
  have nc': "\<not> collision P (rootPreimage P (remove1 (?g ?uk) (map ?g (disclosedUnits c))) legs d)
                (rootPreimage P (map ?g (disclosedUnits c)) legs d)"
    using nc unfolding hs buildRequest_fields .
  have root: "calculateRootHash P (claimHashes (deleteFromHashTree k ?r)) legs d \<noteq> rootHash ?r"
    unfolding hs buildRequest_fields by (rule calculateRootHash_remove1 [OF nc' a b])
  show ?thesis
    unfolding verifyData_def units using root by simp
qed

text \<open>
  C1. Let the claimer's signatures verify under the claimer's address, and let the claim
  be owned by the claimer, its property names distinct, \<open>k\<close> one of them. The request
  built and signed from the claim passes \<open>verifyData\<close>. With the nonce of \<open>k\<close> replaced
  by another value, \<open>verifyData\<close> throws the hash mismatch of \<open>k\<close>, unless the two
  nonces collide under the hash. With \<open>k\<close> deleted from \<open>claim.contents\<close> and from the
  hash tree, \<open>verifyData\<close> returns \<open>false\<close>, unless the digest of \<open>k\<close> is empty or the
  roots before and after collide under the hash. Tampering never passes silently.
\<close>

theorem verifyData_detects_tampering:
  assumes sig: "\<forall>m. verify P m (sign P m (secretKey claimer)) (address claimer)"
      and own: "IClaim.owner c = address claimer"
      and keys: "distinct (map fst (IClaim.contents c))"
      and k: "(k, v) \<in> set (IClaim.contents c)"
      and r: "r = buildRequest P c claimer salts legs d"
      and n: "n \<noteq> salts (PropertyUnit k)"
      and nc_nonce: "\<not> collision P (n @ canonicalSerialize P v)
                        (salts (PropertyUnit k) @ canonicalSerialize P v)"
      and ne: "hashNonceValue P (salts (PropertyUnit k)) v \<noteq> []"
      and nc_root: "\<not> collision P
                       (rootPreimage P (claimHashes (deleteFromHashTree k r)) legs d)
                       (rootPreimage P (claimHashes r) legs d)"
  shows "verifyData P r = Inr True \<and>
         verifyData P (replaceNonce (PropertyUnit k) n r) = Inl (HashMismatch (PropertyUnit k)) \<and>
         verifyData P (deleteFromHashTree k r) = Inr False"
proof (intro conjI)
  show "verifyData P r = Inr True"
    unfolding r by (rule verifyData_buildRequest [OF keys own sig])
  show "verifyData P (replaceNonce (PropertyUnit k) n r) = Inl (HashMismatch (PropertyUnit k))"
    unfolding r by (rule verifyData_replaceNonce [where salts = salts, OF keys k n nc_nonce])
  show "verifyData P (deleteFromHashTree k r) = Inr False"
    using nc_root unfolding r
    by (rule verifyData_deleteFromHashTree [where salts = salts, OF keys k ne])
qed

lemma no_collision_markingPrimitives: "\<not> collision markingPrimitives x y"
  by (rule inj_no_collision) (simp add: markingPrimitives_def inj_def)

theorem verifyData_detects_tampering_witness:
  "verifyData markingPrimitives requestABC = Inr True \<and>
   verifyData markingPrimitives (replaceNonce (PropertyUnit ''a'') ''1234'' requestABC) =
     Inl (HashMismatch (PropertyUnit ''a'')) \<and>
   verifyData markingPrimitives (deleteFromHashTree ''a'' requestABC) = Inr False"
proof -
  have sig: "\<forall>m. verify markingPrimitives m
               (sign markingPrimitives m (secretKey identityBob)) (address identityBob)"
    by (simp add: markingPrimitives_def identityBob_def)
  have own: "IClaim.owner claimABC = address identityBob"
    by (simp add: claimABC_def identityBob_def)
  have keys: "distinct (map fst (IClaim.contents claimABC))"
    by (simp add: claimABC_def)
  have k: "(''a'', JStr ''a'') \<in> set (IClaim.contents claimABC)"
    by (simp add: claimABC_def)
  have n: "''1234'' \<noteq> saltsABC (PropertyUnit ''a'')"
    by (simp add: saltsABC_def)
  have ne: "hashNonceValue markingPrimitives (saltsABC (PropertyUnit ''a'')) (JStr ''a'') \<noteq> []"
    by (simp add: hashNonceValue_def markingPrimitives_def)
  show ?thesis
    by (rule verifyData_detects_tampering
          [where salts = saltsABC, OF sig own keys k requestABC_def n
            no_collision_markingPrimitives ne no_collision_markingPrimitives])
qed

text \<open>
  C2. Let the claimer's signatures verify under the claimer's address, and let the claim
  be owned by the claimer, its property names distinct, \<open>k\<close> one of them. In the request
  built from the claim, \<open>removeClaimProperties([k])\<close> removes the value of \<open>k\<close> from
  \<open>claim.contents\<close> and the nonce entry of \<open>k\<close> from the nonce map, keeps the value and
  the nonce entry of every other property and the nonce entry of the owner, leaves
  \<open>rootHash\<close>, \<open>claimHashes\<close> and \<open>claimerSignature\<close> as they were, and the redacted
  request passes \<open>verifyData\<close>.
\<close>

theorem removeClaimProperties_sound:
  assumes sig: "\<forall>m. verify P m (sign P m (secretKey claimer)) (address claimer)"
      and own: "IClaim.owner c = address claimer"
      and keys: "distinct (map fst (IClaim.contents c))"
      and k: "(k, v) \<in> set (IClaim.contents c)"
      and r: "r = buildRequest P c claimer salts legs d"
      and r': "r' = removeClaimProperties [k] r"
  shows "map_of (IClaim.contents (IRequestForAttestation.claim r')) k = None \<and>
         map_of (claimNonceMap r') (PropertyUnit k) = None \<and>
         (\<forall>j w. (j, w) \<in> set (IClaim.contents c) \<and> j \<noteq> k \<longrightarrow>
            map_of (IClaim.contents (IRequestForAttestation.claim r')) j = Some w \<and>
            map_of (claimNonceMap r') (PropertyUnit j) =
              Some \<lparr> hash = hashNonceValue P (salts (PropertyUnit j)) w,
                     nonce = salts (PropertyUnit j) \<rparr>) \<and>
         map_of (claimNonceMap r') OwnerUnit = map_of (claimNonceMap r) OwnerUnit \<and>
         rootHash r' = rootHash r \<and>
         claimHashes r' = claimHashes r \<and>
         claimerSignature r' = claimerSignature r \<and>
         verifyData P r' = Inr True"
proof -
  have d: "distinct (map fst (disclosedUnits c))"
    by (rule distinct_disclosedUnits [OF keys])
  have nm: "map_of (claimNonceMap r') u =
              (if u \<noteq> PropertyUnit k then map_of (claimNonceMap r) u else None)" for u
    using map_of_filter_fst [of "\<lambda>u. u \<notin> PropertyUnit ` set [k]" "claimNonceMap r" u]
    unfolding r' removeClaimProperties_fields by simp
  have ct: "map_of (IClaim.contents (IRequestForAttestation.claim r')) j =
              (if j \<noteq> k then map_of (IClaim.contents c) j else None)" for j
    using map_of_filter_fst [of "\<lambda>j. j \<notin> set [k]" "IClaim.contents c" j]
    unfolding r' r removeClaimProperties_fields buildRequest_fields by simp
  have others: "map_of (IClaim.contents (IRequestForAttestation.claim r')) j = Some w \<and>
                map_of (claimNonceMap r') (PropertyUnit j) =
                  Some \<lparr> hash = hashNonceValue P (salts (PropertyUnit j)) w,
                         nonce = salts (PropertyUnit j) \<rparr>"
    if jw: "(j, w) \<in> set (IClaim.contents c) \<and> j \<noteq> k" for j w
  proof -
    have "(PropertyUnit j, w) \<in> set (disclosedUnits c)"
      using jw by (force simp: disclosedUnits_def)
    then have "map_of (claimNonceMap r) (PropertyUnit j) =
                 Some \<lparr> hash = hashNonceValue P (salts (PropertyUnit j)) w,
                        nonce = salts (PropertyUnit j) \<rparr>"
      using map_of_entries [OF d, of "PropertyUnit j" w
          "\<lambda>uv. \<lparr> hash = hashNonceValue P (salts (fst uv)) (snd uv), nonce = salts (fst uv) \<rparr>"]
      unfolding r buildRequest_fields by simp
    moreover have "map_of (IClaim.contents c) j = Some w"
      using keys jw by simp
    ultimately show ?thesis using jw by (simp add: nm ct)
  qed
  have v: "verifyData P r' = Inr True"
    unfolding r' r
    by (rule verifyData_removeClaimProperties [OF verifyData_buildRequest [OF keys own sig]])
  show ?thesis
    using others v by (simp add: nm ct) (simp add: r')
qed

theorem removeClaimProperties_sound_witness:
  "map_of (IClaim.contents (IRequestForAttestation.claim
            (removeClaimProperties [''a''] requestABC))) ''a'' = None \<and>
   map_of (claimNonceMap (removeClaimProperties [''a''] requestABC)) (PropertyUnit ''a'') = None \<and>
   map_of (IClaim.contents (IRequestForAttestation.claim
            (removeClaimProperties [''a''] requestABC))) ''b'' = Some (JStr ''b'') \<and>
   map_of (claimNonceMap (removeClaimProperties [''a''] requestABC)) (PropertyUnit ''b'') =
     Some \<lparr> hash = hashNonceValue markingPrimitives (saltsABC (PropertyUnit ''b'')) (JStr ''b''),
            nonce = saltsABC (PropertyUnit ''b'') \<rparr> \<and>
   rootHash (removeClaimProperties [''a''] requestABC) = rootHash requestABC \<and>
   claimHashes (removeClaimProperties [''a''] requestABC) = claimHashes requestABC \<and>
   claimerSignature (removeClaimProperties [''a''] requestABC) = claimerSignature requestABC \<and>
   verifyData markingPrimitives (removeClaimProperties [''a''] requestABC) = Inr True"
proof -
  have sig: "\<forall>m. verify markingPrimitives m
               (sign markingPrimitives m (secretKey identityBob)) (address identityBob)"
    by (simp add: markingPrimitives_def identityBob_def)
  have own: "IClaim.owner claimABC = address identityBob"
    by (simp add: claimABC_def identityBob_def)
  have keys: "distinct (map fst (IClaim.contents claimABC))"
    by (simp add: claimABC_def)
  have k: "(''a'', JStr ''a'') \<in> set (IClaim.contents claimABC)"
    by (simp add: claimABC_def)
  have b: "(''b'', JStr ''b'') \<in> set (IClaim.contents claimABC) \<and> ''b'' \<noteq> ''a''"
    by (simp add: claimABC_def)
  note t = removeClaimProperties_sound [OF sig own keys k requestABC_def refl]
  from t b show ?thesis by blast
qed

end
